theory Spec2Isabelle
  imports Complex_Main "HOL-Library.Sublist" "HOL-Library.Multiset" "HOL-Library.AList"
begin

section \<open>VidHarvest: the download server (server.js) and the client download manager
  (public/js/download.js)\<close>

subsection \<open>JavaScript string methods\<close>

text \<open>
  \<^verbatim>\<open>s.startsWith(t)\<close>, \<^verbatim>\<open>s.endsWith(t)\<close> and \<^verbatim>\<open>s.includes(t)\<close> on strings as character
  lists. The receiver comes first, as in the source.
\<close>

definition startsWith :: "string \<Rightarrow> string \<Rightarrow> bool" where
  "startsWith s t = prefix t s"

definition endsWith :: "string \<Rightarrow> string \<Rightarrow> bool" where
  "endsWith s t = suffix t s"

definition includes_str :: "string \<Rightarrow> string \<Rightarrow> bool" where
  "includes_str s t = sublist t s"

text \<open>
  \<^verbatim>\<open>s.toLowerCase()\<close> on the ASCII letters; every other character is left as it is.
\<close>

definition lower_char :: "char \<Rightarrow> char" where
  "lower_char c =
     (let n = (of_char c :: nat) in if 65 \<le> n \<and> n \<le> 90 then char_of (n + 32) else c)"

definition toLowerCase :: "string \<Rightarrow> string" where
  "toLowerCase s = map lower_char s"

subsection \<open>The file system under the downloads directory\<close>

text \<open>
  Every path of server.js is \<^verbatim>\<open>path.join(dir, name)\<close> with a file name without
  separators, so a path is the pair of its directory and its name and
  \<^verbatim>\<open>path.dirname\<close> is the first projection. The disk is the list of its files in
  directory-listing order, each with its content. A platform directory exists once
  \<^verbatim>\<open>fs.ensureDirSync\<close> has run in \<^verbatim>\<open>startDownload\<close>, and no code removes one;
  removing an existing file succeeds.
\<close>

type_synonym path = "string \<times> string"

type_synonym disk = "(path \<times> string) list"

definition path_join :: "string \<Rightarrow> string \<Rightarrow> path" where
  "path_join dir name = (dir, name)"

definition path_dirname :: "path \<Rightarrow> string" where
  "path_dirname p = fst p"

definition existsSync :: "disk \<Rightarrow> path \<Rightarrow> bool" where
  "existsSync d p = (p \<in> set (map fst d))"

definition unlinkSync :: "disk \<Rightarrow> path \<Rightarrow> disk" where
  "unlinkSync d p = filter (\<lambda>e. fst e \<noteq> p) d"

definition readdirSync :: "disk \<Rightarrow> string \<Rightarrow> string list" where
  "readdirSync d dir = map (\<lambda>e. snd (fst e)) (filter (\<lambda>e. fst (fst e) = dir) d)"

definition readFile :: "disk \<Rightarrow> path \<Rightarrow> string option" where
  "readFile d p = map_of d p"

definition writeFile :: "disk \<Rightarrow> path \<Rightarrow> string \<Rightarrow> disk" where
  "writeFile d p c = (if existsSync d p then map (\<lambda>e. if fst e = p then (p, c) else e) d
                      else d @ [(p, c)])"

text \<open>\<^verbatim>\<open>fs.renameSync(src, dst)\<close> throws when the source is missing: \<open>None\<close>.\<close>

definition renameSync :: "disk \<Rightarrow> path \<Rightarrow> path \<Rightarrow> disk option" where
  "renameSync d src dst =
     (case readFile d src of
        None \<Rightarrow> None
      | Some c \<Rightarrow> Some (writeFile (unlinkSync d src) dst c))"

subsection \<open>Server state, events and responses\<close>

text \<open>
  The entry of \<^verbatim>\<open>activeDownloads\<close>: created by \<^verbatim>\<open>POST /api/download\<close> without a file
  path, which \<^verbatim>\<open>startDownload\<close> adds. The enhancement flags are the object's
  properties with their truthiness; the object itself may be absent.
\<close>

type_synonym enhancements = "(string \<times> bool) list"

record download =
  quality :: string
  format :: string
  enhancements :: "enhancements option"
  status :: string
  progress :: int
  filePath :: "path option"
  filename :: "string option"

text \<open>
  The two global tables of server.js, the disk, and the signals sent to child processes
  (job id and signal). A process handle is the argument list it was spawned with.
\<close>

record server =
  activeDownloads :: "string \<rightharpoonup> download"
  downloadProcesses :: "string \<rightharpoonup> string list"
  disk :: disk
  signals :: "(string \<times> string) list"

text \<open>The socket events of \<^verbatim>\<open>io.emit\<close>, with the fields the source gives them.\<close>

datatype event =
    download_progress string int string "string option"
  | download_ready string string
  | download_complete string path string nat
  | download_error string string

text \<open>An HTTP response: \<^verbatim>\<open>res.json({success: true, ...})\<close> or a status with an error.\<close>

datatype response =
    Success "(string \<times> string) list"
  | Failure nat string

definition downloadUrl :: "string \<Rightarrow> string" where
  "downloadUrl downloadId = ''/api/download/'' @ downloadId"

subsection \<open>Cancel endpoint\<close>

text \<open>
  \<^verbatim>\<open>POST /api/download/:downloadId/cancel\<close> (server.js 621-649). Sending the signal and
  \<^verbatim>\<open>fs.existsSync\<close> do not throw, and the unlink has its own try/catch, so the outer
  catch is never entered.
\<close>

definition cancel :: "server \<Rightarrow> string \<Rightarrow> response \<times> server" where
  "cancel s downloadId =
     (let process = downloadProcesses s downloadId;
          download = activeDownloads s downloadId;
          s1 = (case process of
                  None \<Rightarrow> s
                | Some p \<Rightarrow> s\<lparr>signals := signals s @ [(downloadId, ''SIGTERM'')],
                               downloadProcesses := (downloadProcesses s)(downloadId := None)\<rparr>);
          s2 = (case download of
                  None \<Rightarrow> s1
                | Some d \<Rightarrow>
                    (let s1' = (case filePath d of
                                  None \<Rightarrow> s1
                                | Some p \<Rightarrow> if existsSync (disk s1) p
                                            then s1\<lparr>disk := unlinkSync (disk s1) p\<rparr> else s1)
                     in s1'\<lparr>activeDownloads := (activeDownloads s1')(downloadId := None)\<rparr>))
      in (Success [(''message'', ''Download cancelled'')], s2))"

subsection \<open>Submitting a job and starting the fetch\<close>

text \<open>
  The body of a request, with the url a string (possibly empty). The fresh id of
  \<^verbatim>\<open>uuidv4()\<close> and the platform name that \<^verbatim>\<open>detectPlatform(url)\<close> returns are
  parameters: both come from libraries (uuid, the URL parser) and never fail.
\<close>

record request_body =
  req_url :: string
  req_quality :: string
  req_format :: string
  req_enhancements :: "enhancements option"

definition DOWNLOADS_DIR :: string where
  "DOWNLOADS_DIR = ''downloads''"

definition path_string :: "path \<Rightarrow> string" where
  "path_string p = fst p @ ''/'' @ snd p"

definition ytdlpArgs :: "string \<Rightarrow> string \<Rightarrow> path \<Rightarrow> string list" where
  "ytdlpArgs url quality' filePath' =
     (if quality' = ''Audio Only''
      then [url, ''--format'', ''bestaudio'', ''--output'', path_string filePath']
      else [url, ''--extractor-args'', ''youtube:player_client=android'',
            ''--no-check-certificate'', ''--output'', path_string filePath'])"

text \<open>
  \<^verbatim>\<open>startDownload\<close> up to the spawn (server.js 314-358): the file path is stored in the
  job's entry, the first progress event is emitted and the extraction process is
  spawned and stored in \<^verbatim>\<open>downloadProcesses\<close>. Creating the directory and spawning
  with string arguments do not throw, so the catch block is not entered. The progress
  timer is \<open>fetch_ticks\<close> below, the close handler \<open>on_close\<close>.
\<close>

definition startDownload ::
  "server \<Rightarrow> string \<Rightarrow> string \<Rightarrow> string \<Rightarrow> string \<Rightarrow> event list \<times> server" where
  "startDownload s downloadId url quality' platform =
     (let platformDir = DOWNLOADS_DIR @ ''/'' @ platform;
          ext = (if quality' = ''Audio Only'' then ''mp3'' else ''mp4'');
          filename' = downloadId @ ''.'' @ ext;
          filePath' = path_join platformDir filename';
          s1 = (case activeDownloads s downloadId of
                  None \<Rightarrow> s
                | Some download \<Rightarrow>
                    s\<lparr>activeDownloads := (activeDownloads s)(downloadId \<mapsto>
                         download\<lparr>filePath := Some filePath', filename := Some filename'\<rparr>)\<rparr>);
          s2 = s1\<lparr>downloadProcesses :=
                    (downloadProcesses s1)(downloadId \<mapsto> ytdlpArgs url quality' filePath')\<rparr>
      in ([download_progress downloadId 0 ''downloading'' (Some ''Starting download...'')], s2))"

text \<open>
  \<^verbatim>\<open>POST /api/download\<close> (server.js 258-288): the id is allocated, the entry is stored,
  the response is sent and the fetch is started. There is no check of the url.
\<close>

definition post_download ::
  "server \<Rightarrow> request_body \<Rightarrow> string \<Rightarrow> string \<Rightarrow> response \<times> event list \<times> server" where
  "post_download s body downloadId platform =
     (let s1 = s\<lparr>activeDownloads := (activeDownloads s)(downloadId \<mapsto>
                    \<lparr>quality = req_quality body, format = req_format body,
                     enhancements = req_enhancements body, status = ''starting'',
                     progress = 0, filePath = None, filename = None\<rparr>)\<rparr>;
          (evs, s2) = startDownload s1 downloadId (req_url body) (req_quality body) platform
      in (Success [(''downloadId'', downloadId)], evs, s2))"

text \<open>
  \<^verbatim>\<open>POST /api/analyze\<close> up to the call of the extractor (server.js 174-194): the two
  checks of the url, then the query.
\<close>

datatype analyze_step = Rejected response | Query string

definition analyze :: "string \<Rightarrow> analyze_step" where
  "analyze url =
     (if url = [] then Rejected (Failure 400 ''URL is required'')
      else if \<not> startsWith url ''http''
      then Rejected (Failure 400 ''Invalid URL. Please provide a valid video URL.'')
      else Query url)"

subsection \<open>The close handler of the extraction process\<close>

text \<open>
  \<^verbatim>\<open>Object.values(enhancements).some(Boolean)\<close>, guarded by the object being there.
\<close>

definition some_truthy :: "enhancements option \<Rightarrow> bool" where
  "some_truthy e = (case e of None \<Rightarrow> False | Some flags \<Rightarrow> list_ex snd flags)"

text \<open>
  \<^verbatim>\<open>ytdlp.on('close', code => ...)\<close> (server.js 364-390). The exit code is \<open>None\<close>
  when the process was ended by a signal. The third component tells whether
  \<^verbatim>\<open>applyEnhancements\<close> is called.
\<close>

definition on_close ::
  "server \<Rightarrow> string \<Rightarrow> path \<Rightarrow> enhancements option \<Rightarrow> int option
     \<Rightarrow> event list \<times> server \<times> bool" where
  "on_close s downloadId filePath' enh code =
     (let s1 = s\<lparr>downloadProcesses := (downloadProcesses s)(downloadId := None)\<rparr>
      in if code = Some 0 \<and> existsSync (disk s1) filePath'
         then (if some_truthy enh
               then ([download_progress downloadId 90 ''enhancing''
                        (Some ''Starting AI enhancement... (This may take 2-5 minutes)'')],
                     s1, True)
               else ([download_progress downloadId 100 ''complete'' None,
                      download_ready downloadId (downloadUrl downloadId)],
                     s1, False))
         else ([download_error downloadId ''Download failed''],
               s1\<lparr>activeDownloads := (activeDownloads s1)(downloadId := None),
                   downloadProcesses := (downloadProcesses s1)(downloadId := None)\<rparr>,
               False))"

definition is_error :: "event \<Rightarrow> bool" where
  "is_error e = (case e of download_error i m \<Rightarrow> True | _ \<Rightarrow> False)"

definition is_ready :: "event \<Rightarrow> bool" where
  "is_ready e = (case e of download_ready i u \<Rightarrow> True | _ \<Rightarrow> False)"

subsection \<open>Finishing a job\<close>

text \<open>
  \<^verbatim>\<open>completeDownload\<close> (server.js 526-570). Without a file name the first file of the
  directory whose name contains mp4, mp3 or mkv is taken; when there is none,
  \<^verbatim>\<open>path.join(outputDir, undefined)\<close> throws and the catch block runs. The
  processing time and the platform of the completion event are left out.
\<close>

definition find_final :: "string list \<Rightarrow> string option" where
  "find_final files =
     List.find (\<lambda>f. includes_str f ''mp4'' \<or> includes_str f ''mp3'' \<or> includes_str f ''mkv'') files"

definition stat_size :: "disk \<Rightarrow> path \<Rightarrow> nat" where
  "stat_size d p = (case readFile d p of None \<Rightarrow> 0 | Some c \<Rightarrow> length c)"

definition completeDownload ::
  "server \<Rightarrow> string \<Rightarrow> string \<Rightarrow> string option \<Rightarrow> event list \<times> server" where
  "completeDownload s downloadId outputDir filename0 =
     (case activeDownloads s downloadId of
        None \<Rightarrow> ([], s)
      | Some download \<Rightarrow>
          (let filename' = (if filename0 = None \<or> filename0 = Some []
                            then find_final (readdirSync (disk s) outputDir) else filename0)
           in case filename' of
                None \<Rightarrow>
                  ([download_error downloadId ''Failed to finalize download''],
                   s\<lparr>activeDownloads := (activeDownloads s)(downloadId := None)\<rparr>)
              | Some f \<Rightarrow>
                  (let filePath' = path_join outputDir f
                   in if \<not> existsSync (disk s) filePath'
                      then ([download_error downloadId ''File not found after processing''], s)
                      else ([download_ready downloadId (downloadUrl downloadId),
                             download_complete downloadId filePath' f
                               (stat_size (disk s) filePath')], s))))"

subsection \<open>The enhancement stage\<close>

text \<open>
  \<^verbatim>\<open>applyEnhancements\<close> (server.js 405-524) runs in three turns of the event loop, and
  other requests are handled between them: its start, up to \<^verbatim>\<open>await fs.readdir\<close>; the
  part from the answer of readdir to the start of the transcode process; and, up to
  five minutes later, the 'end' or the 'error' handler. Each part is a function of the
  state it finds when it runs.
\<close>

definition find_video :: "string \<Rightarrow> string list \<Rightarrow> string option" where
  "find_video downloadId files =
     List.find (\<lambda>f. includes_str f downloadId \<or> endsWith f ''.mp4'' \<or> endsWith f ''.mkv''
                  \<or> endsWith f ''.webm'') files"

text \<open>
  The start and the part after readdir (server.js 406-470 and 518-524). \<open>files\<close> is the
  listing readdir has read and \<open>s\<close> the state when the function goes on; the first
  event is emitted before the wait and does not read the state. A missing video file
  throws, and \<open>setupThrows\<close> says that building or starting the command throws: in
  both cases the catch block completes the job without a file name. Otherwise the
  transcode process is started on the video file found, which is the third component.
  The events of the progress timer are \<open>enhance_ticks\<close> below.
\<close>

definition applyEnhancements ::
  "server \<Rightarrow> string \<Rightarrow> string \<Rightarrow> string list \<Rightarrow> bool
     \<Rightarrow> event list \<times> server \<times> string option" where
  "applyEnhancements s downloadId outputDir files setupThrows =
     (let start = download_progress downloadId 90 ''enhancing''
                    (Some ''Starting AI enhancement... (This may take 2-5 minutes)'')
      in case find_video downloadId files of
           None \<Rightarrow>
             (let (evs, s') = completeDownload s downloadId outputDir None
              in (start # evs, s', None))
         | Some videoFile \<Rightarrow>
             (if setupThrows
              then (let (evs, s') = completeDownload s downloadId outputDir None
                    in (start # evs, s', None))
              else ([start], s, Some videoFile)))"

text \<open>
  The transcode process writes nothing but its output path; a failing process may have
  left a partial output there.
\<close>

definition ffmpeg_writes :: "server \<Rightarrow> string \<Rightarrow> string \<Rightarrow> string \<Rightarrow> server" where
  "ffmpeg_writes s outputDir videoFile c =
     s\<lparr>disk := writeFile (disk s) (path_join outputDir (''enhanced_'' @ videoFile)) c\<rparr>"

text \<open>
  The 'end' handler (server.js 481-500), on the state at the time of the event; a failing
  rename goes to its catch.
\<close>

definition on_end :: "server \<Rightarrow> string \<Rightarrow> string \<Rightarrow> string \<Rightarrow> event list \<times> server" where
  "on_end s downloadId outputDir videoFile =
     (let inputPath = path_join outputDir videoFile;
          outputPath = path_join outputDir (''enhanced_'' @ videoFile)
      in if existsSync (disk s) outputPath
         then (let d1 = (if existsSync (disk s) inputPath
                         then unlinkSync (disk s) inputPath else disk s)
               in case renameSync d1 outputPath inputPath of
                    None \<Rightarrow> completeDownload (s\<lparr>disk := d1\<rparr>) downloadId outputDir (Some videoFile)
                  | Some d2 \<Rightarrow>
                      completeDownload (s\<lparr>disk := d2\<rparr>) downloadId outputDir (Some videoFile))
         else completeDownload s downloadId outputDir (Some videoFile))"

text \<open>
  The 'error' handler (server.js 501-517), on the state at the time of the event.
  fluent-ffmpeg emits the event for a non-zero exit and for the SIGKILL of the
  five-minute timeout alike.
\<close>

definition on_error :: "server \<Rightarrow> string \<Rightarrow> string \<Rightarrow> string \<Rightarrow> event list \<times> server" where
  "on_error s downloadId outputDir videoFile =
     (let outputPath = path_join outputDir (''enhanced_'' @ videoFile);
          s1 = (if existsSync (disk s) outputPath
                then s\<lparr>disk := unlinkSync (disk s) outputPath\<rparr> else s)
      in completeDownload s1 downloadId outputDir (Some videoFile))"

subsection \<open>Cleanup endpoint\<close>

text \<open>
  The sweep of \<^verbatim>\<open>DELETE /api/cleanup/:downloadId\<close>: every listed file whose name
  contains the id is removed if it is still there. The first component collects the
  paths given to \<^verbatim>\<open>fs.unlinkSync\<close>.
\<close>

fun sweep :: "string \<Rightarrow> string \<Rightarrow> string list \<Rightarrow> path list \<times> disk \<Rightarrow> path list \<times> disk" where
  "sweep downloadId platformDir [] acc = acc"
| "sweep downloadId platformDir (file # files) (del, d) =
     (if includes_str file downloadId
      then (let filePath' = path_join platformDir file
            in if existsSync d filePath'
               then sweep downloadId platformDir files (del @ [filePath'], unlinkSync d filePath')
               else sweep downloadId platformDir files (del, d))
      else sweep downloadId platformDir files (del, d))"

text \<open>
  \<^verbatim>\<open>DELETE /api/cleanup/:downloadId\<close> (server.js 652-687). The result is the response,
  the paths removed and the new state. For an entry without a file path
  \<^verbatim>\<open>path.dirname(undefined)\<close> throws outside the inner try: the outer catch answers
  500 and the entry stays.
\<close>

definition cleanup :: "server \<Rightarrow> string \<Rightarrow> response \<times> path list \<times> server" where
  "cleanup s downloadId =
     (case activeDownloads s downloadId of
        None \<Rightarrow>
          (Success [], [],
           s\<lparr>activeDownloads := (activeDownloads s)(downloadId := None)\<rparr>)
      | Some download \<Rightarrow>
          (case filePath download of
             None \<Rightarrow> (Failure 500 ''Cleanup failed'', [], s)
           | Some p \<Rightarrow>
               (let (del1, d1) = (if existsSync (disk s) p
                                  then ([p], unlinkSync (disk s) p) else ([], disk s));
                    platformDir = path_dirname p;
                    files = readdirSync d1 platformDir;
                    (del2, d2) = sweep downloadId platformDir files (del1, d1)
                in (Success [], del2,
                    s\<lparr>disk := d2,
                      activeDownloads := (activeDownloads s)(downloadId := None)\<rparr>))))"

subsection \<open>Synthetic progress\<close>

text \<open>
  \<^verbatim>\<open>Math.round\<close> rounds half up. The progress counters are doubles in the source and
  reals here; \<open>rs\<close> are the values of \<^verbatim>\<open>Math.random()\<close>, one for each tick.
\<close>

definition Math_round :: "real \<Rightarrow> int" where
  "Math_round x = \<lfloor>x + 1 / 2\<rfloor>"

text \<open>
  The progress timer of the fetch stage (server.js 338-348): the values emitted by the
  ticks, from the counter's value before the first of them.
\<close>

fun fetch_ticks :: "real \<Rightarrow> real list \<Rightarrow> int list" where
  "fetch_ticks progress' [] = []"
| "fetch_ticks progress' (r # rs) =
     (let p1 = progress' + (r * 15 + 5);
          p2 = (if p1 > 95 then 95 else p1)
      in Math_round p2 # fetch_ticks p2 rs)"

text \<open>The fetch stage: the first event of \<^verbatim>\<open>startDownload\<close> with progress 0, then the ticks.\<close>

definition fetch_stage :: "real list \<Rightarrow> int list" where
  "fetch_stage rs = 0 # fetch_ticks 0 rs"

text \<open>
  The progress timer of the enhancement stage (server.js 457-468). A tick emits only
  while the counter is below 95, so after the first silent tick nothing more is emitted.
\<close>

fun enhance_ticks :: "real \<Rightarrow> real list \<Rightarrow> int list" where
  "enhance_ticks enhancementProgress [] = []"
| "enhance_ticks enhancementProgress (r # rs) =
     (if enhancementProgress < 95
      then (let e1 = enhancementProgress + (r * 10 + 5)
            in Math_round (90 + e1 * (1 / 10)) # enhance_ticks e1 rs)
      else [])"

text \<open>
  The enhancement stage: 90 from the close handler, 90 from the start of
  \<^verbatim>\<open>applyEnhancements\<close>, then the ticks.
\<close>

definition enhance_stage :: "real list \<Rightarrow> int list" where
  "enhance_stage rs = 90 # 90 # enhance_ticks 0 rs"

definition random_values :: "real list \<Rightarrow> bool" where
  "random_values rs = list_all (\<lambda>r. 0 \<le> r \<and> r < 1) rs"

section \<open>The client download manager (public/js/download.js)\<close>

subsection \<open>State\<close>

text \<open>
  A queued request and an active download, with the fields the queue, the retry logic
  and the cancellation read; title, format and the enhancement flags are carried along
  unread and are left out.
\<close>

record queue_item =
  item_id :: string
  item_url :: string
  item_quality :: string
  item_status :: string
  addedAt :: int
  priority :: int

record client_download =
  dl_id :: string
  dl_url :: string
  dl_quality :: string
  dl_status :: string
  dl_progress :: int
  dl_retryCount :: nat
  dl_error :: "string option"

text \<open>What the manager does to the outside: its requests, its timers, its messages.\<close>

datatype request = Post_download string | Post_cancel string

datatype timer = Retry_timer string nat | ProcessQueue_timer

datatype message = Retry_message string nat | Error_message string string

text \<open>
  The fields of \<^verbatim>\<open>DownloadManager\<close>. \<^verbatim>\<open>downloads\<close> is a JavaScript Map: an association
  list in insertion order with distinct keys, whose length is \<^verbatim>\<open>downloads.size\<close>.
  \<open>awaiting\<close> is the job whose \<^verbatim>\<open>startDownload\<close> the loop of \<^verbatim>\<open>processQueue\<close> is
  suspended on, if any.
\<close>

record download_manager =
  downloads :: "(string \<times> client_download) list"
  downloadQueue :: "queue_item list"
  isProcessingQueue :: bool
  maxConcurrentDownloads :: nat
  retryAttempts :: "string \<rightharpoonup> nat"
  maxRetries :: nat
  retryDelay :: nat
  awaiting :: "string option"
  requests :: "request list"
  timers :: "(nat \<times> timer) list"
  messages :: "message list"

text \<open>The constructor with \<^verbatim>\<open>setupRetryLogic\<close> (download.js 4-13, 47-51).\<close>

definition new_manager :: download_manager where
  "new_manager =
     \<lparr>downloads = [], downloadQueue = [], isProcessingQueue = False,
      maxConcurrentDownloads = 3, retryAttempts = Map.empty, maxRetries = 3,
      retryDelay = 5000, awaiting = None, requests = [], timers = [], messages = []\<rparr>"

subsection \<open>The queue\<close>

text \<open>The comparator of \<^verbatim>\<open>sortQueue\<close> (download.js 75-80).\<close>

definition compare_items :: "queue_item \<Rightarrow> queue_item \<Rightarrow> int" where
  "compare_items a b =
     (if priority a \<noteq> priority b then priority b - priority a else addedAt a - addedAt b)"

text \<open>
  \<^verbatim>\<open>Array.prototype.sort\<close> with this comparator, which is consistent: a stable sort
  (ECMAScript 2019), here by insertion from the right, an item going before the first
  one it does not come after.
\<close>

fun insert_item :: "queue_item \<Rightarrow> queue_item list \<Rightarrow> queue_item list" where
  "insert_item x [] = [x]"
| "insert_item x (y # ys) =
     (if compare_items x y \<le> 0 then x # y # ys else y # insert_item x ys)"

definition sortQueue :: "queue_item list \<Rightarrow> queue_item list" where
  "sortQueue q = foldr insert_item q []"

text \<open>
  \<^verbatim>\<open>startDownload\<close> up to its \<^verbatim>\<open>await fetch\<close> (download.js 101-140): the download is
  entered in the Map and the request is sent.
\<close>

definition dm_startDownload ::
  "download_manager \<Rightarrow> string \<Rightarrow> string \<Rightarrow> string \<Rightarrow> download_manager" where
  "dm_startDownload m i url quality' =
     (let download = \<lparr>dl_id = i, dl_url = url, dl_quality = quality', dl_status = ''starting'',
                       dl_progress = 0, dl_retryCount = 0, dl_error = None\<rparr>
      in m\<lparr>downloads := AList.update i download (downloads m),
           requests := requests m @ [Post_download i]\<rparr>)"

text \<open>
  One turn of the loop of \<^verbatim>\<open>processQueue\<close> (download.js 87-97): either the head of the
  queue is shifted and started, and the loop is suspended on it, or the loop ends,
  with a timer when items are left.
\<close>

definition processQueue_loop :: "download_manager \<Rightarrow> download_manager" where
  "processQueue_loop m =
     (case downloadQueue m of
        queueItem # rest \<Rightarrow>
          (if length (downloads m) < maxConcurrentDownloads m
           then (dm_startDownload (m\<lparr>downloadQueue := rest\<rparr>)
                   (item_id queueItem) (item_url queueItem) (item_quality queueItem))
                \<lparr>awaiting := Some (item_id queueItem)\<rparr>
           else m\<lparr>isProcessingQueue := False,
                  timers := timers m @ [(1000, ProcessQueue_timer)]\<rparr>)
      | [] \<Rightarrow> m\<lparr>isProcessingQueue := False\<rparr>)"

definition processQueue :: "download_manager \<Rightarrow> download_manager" where
  "processQueue m =
     (if isProcessingQueue m then m else processQueue_loop (m\<lparr>isProcessingQueue := True\<rparr>))"

text \<open>
  \<^verbatim>\<open>addToQueue\<close> (download.js 54-71). The fresh id of \<^verbatim>\<open>generateId()\<close> and the time of
  \<^verbatim>\<open>Date.now()\<close> are parameters; a missing priority counts as 0.
\<close>

definition addToQueue ::
  "download_manager \<Rightarrow> string \<Rightarrow> string \<Rightarrow> string \<Rightarrow> int option \<Rightarrow> int \<Rightarrow> download_manager" where
  "addToQueue m i url quality' priority' now =
     (let queueItem = \<lparr>item_id = i, item_url = url, item_quality = quality',
                        item_status = ''queued'', addedAt = now,
                        priority = (case priority' of None \<Rightarrow> 0 | Some p \<Rightarrow> p)\<rparr>;
          m1 = m\<lparr>downloadQueue := sortQueue (downloadQueue m @ [queueItem])\<rparr>
      in if \<not> isProcessingQueue m1 then processQueue m1 else m1)"

subsection \<open>Errors and retries\<close>

definition retryableErrors :: "string list" where
  "retryableErrors =
     [''network error'', ''timeout'', ''connection reset'', ''temporary failure'',
      ''rate limited'']"

definition isRetryableError :: "string \<Rightarrow> bool" where
  "isRetryableError error' =
     list_ex (\<lambda>retryableError. includes_str (toLowerCase error') retryableError) retryableErrors"

text \<open>\<^verbatim>\<open>scheduleRetry\<close> (download.js 365-384), up to the timer.\<close>

definition scheduleRetry :: "download_manager \<Rightarrow> string \<Rightarrow> nat \<Rightarrow> download_manager" where
  "scheduleRetry m downloadId retryCount =
     (case map_of (downloads m) downloadId of
        None \<Rightarrow> m
      | Some download \<Rightarrow>
          m\<lparr>retryAttempts := (retryAttempts m)(downloadId \<mapsto> retryCount),
            messages := messages m @ [Retry_message downloadId retryCount],
            timers := timers m
              @ [(retryDelay m * 2 ^ (retryCount - 1), Retry_timer downloadId retryCount)]\<rparr>)"

text \<open>\<^verbatim>\<open>handleDownloadError\<close> (download.js 323-349).\<close>

definition handleDownloadError :: "download_manager \<Rightarrow> string \<Rightarrow> string \<Rightarrow> download_manager" where
  "handleDownloadError m downloadId error' =
     (case map_of (downloads m) downloadId of
        None \<Rightarrow> m
      | Some download \<Rightarrow>
          (let m1 = m\<lparr>downloads := AList.update downloadId
                         (download\<lparr>dl_status := ''error'', dl_error := Some error'\<rparr>)
                         (downloads m)\<rparr>;
               retryCount = (case retryAttempts m1 downloadId of None \<Rightarrow> 0 | Some n \<Rightarrow> n)
           in if retryCount < maxRetries m1 \<and> isRetryableError error'
              then scheduleRetry m1 downloadId (retryCount + 1)
              else processQueue
                     (m1\<lparr>messages := messages m1 @ [Error_message downloadId error'],
                         downloads := AList.delete downloadId (downloads m1),
                         retryAttempts := (retryAttempts m1)(downloadId := None)\<rparr>)))"

text \<open>
  The callback of the retry timer (download.js 377-383): the download is started again
  if it is still active.
\<close>

definition on_retry_timer :: "download_manager \<Rightarrow> string \<Rightarrow> nat \<Rightarrow> download_manager" where
  "on_retry_timer m downloadId retryCount =
     (case map_of (downloads m) downloadId of
        None \<Rightarrow> m
      | Some download \<Rightarrow> dm_startDownload m (dl_id download) (dl_url download) (dl_quality download))"

text \<open>
  The rest of \<^verbatim>\<open>startDownload\<close>, when the answer to its request is there
  (download.js 142-154): \<open>None\<close> is \<^verbatim>\<open>data.success\<close>, otherwise the message of the
  error thrown. Then the loop of \<^verbatim>\<open>processQueue\<close> goes on if it was suspended on this job.
\<close>

definition on_response :: "download_manager \<Rightarrow> string \<Rightarrow> string option \<Rightarrow> download_manager" where
  "on_response m i failure =
     (let m1 = (case failure of
                  None \<Rightarrow>
                    (case map_of (downloads m) i of
                       None \<Rightarrow> m
                     | Some download \<Rightarrow>
                         m\<lparr>downloads := AList.update i (download\<lparr>dl_status := ''downloading''\<rparr>)
                                          (downloads m)\<rparr>)
                | Some error' \<Rightarrow> handleDownloadError m i error')
      in if awaiting m1 = Some i then processQueue_loop (m1\<lparr>awaiting := None\<rparr>) else m1)"

subsection \<open>Cancelling\<close>

text \<open>\<^verbatim>\<open>cancelDownload\<close> (download.js 459-487), without the update of the page.\<close>

definition cancelDownload :: "download_manager \<Rightarrow> string \<Rightarrow> download_manager" where
  "cancelDownload m downloadId =
     (case map_of (downloads m) downloadId of
        None \<Rightarrow> m
      | Some download \<Rightarrow>
          processQueue
            (m\<lparr>downloads := AList.delete downloadId (downloads m),
               retryAttempts := (retryAttempts m)(downloadId := None),
               requests := requests m @ [Post_cancel downloadId]\<rparr>))"

section \<open>Example states\<close>

definition job_id :: string where
  "job_id = ''3f2a9c1e-5b7d-4e8a-9f10-2b6c7d8e9f00''"

text \<open>
  A server with one job whose artifact is on the disk, beside the file of an older job.
\<close>

definition example_disk :: disk where
  "example_disk =
     [((''downloads/YouTube'', ''0a1b.mp4''), ''older video''),
      ((''downloads/YouTube'', job_id @ ''.mp4''), ''video'')]"

definition example_download :: download where
  "example_download =
     \<lparr>quality = ''720p'', format = ''mp4'', enhancements = Some [(''noiseReduction'', True)],
      status = ''starting'', progress = 0,
      filePath = Some (''downloads/YouTube'', job_id @ ''.mp4''),
      filename = Some (job_id @ ''.mp4'')\<rparr>"

definition example_server :: server where
  "example_server =
     \<lparr>activeDownloads = [job_id \<mapsto> example_download],
      downloadProcesses = [job_id \<mapsto> [''https://youtu.be/x'']],
      disk = example_disk, signals = []\<rparr>"

definition empty_server :: server where
  "empty_server =
     \<lparr>activeDownloads = Map.empty, downloadProcesses = Map.empty, disk = [], signals = []\<rparr>"

text \<open>
  A server with two jobs on the same platform. The older job is ready and its file is
  listed first; the other job has just been fetched and asks for noise reduction.
  Then the same server while the transcode process of the second job runs, with a
  partial output written; and that state after the client of the older job has confirmed
  its delivery.
\<close>

definition older_id :: string where
  "older_id = ''0a1b2c3d-4e5f-4a6b-8c7d-9e0f1a2b3c4d''"

definition two_jobs :: server where
  "two_jobs =
     \<lparr>activeDownloads =
        [older_id \<mapsto> \<lparr>quality = ''720p'', format = ''mp4'', enhancements = None,
                       status = ''starting'', progress = 0,
                       filePath = Some (''downloads/YouTube'', older_id @ ''.mp4''),
                       filename = Some (older_id @ ''.mp4'')\<rparr>,
         job_id \<mapsto> example_download],
      downloadProcesses = Map.empty,
      disk = [((''downloads/YouTube'', older_id @ ''.mp4''), ''older video''),
              ((''downloads/YouTube'', job_id @ ''.mp4''), ''video'')],
      signals = []\<rparr>"

definition two_jobs_transcoding :: server where
  "two_jobs_transcoding =
     ffmpeg_writes two_jobs ''downloads/YouTube'' (older_id @ ''.mp4'') ''partial''"

definition older_cleaned :: server where
  "older_cleaned = snd (snd (cleanup two_jobs_transcoding older_id))"

definition example_body :: request_body where
  "example_body =
     \<lparr>req_url = ''not-a-url'', req_quality = ''720p'', req_format = ''mp4'',
      req_enhancements = None\<rparr>"

text \<open>
  The order the comparator of \<open>sortQueue\<close> stands for: higher priority first, then
  earlier enqueue time.
\<close>

definition comes_first :: "queue_item \<Rightarrow> queue_item \<Rightarrow> bool" where
  "comes_first a b =
     (priority b < priority a \<or> (priority a = priority b \<and> addedAt a \<le> addedAt b))"

text \<open>
  A manager with one slot; the same with job x admitted and answered; with job a
  (priority 0) waiting behind it; with job b (priority 1) submitted after a; and the
  last one with the slot free again.
\<close>

definition one_slot :: download_manager where
  "one_slot = new_manager\<lparr>maxConcurrentDownloads := 1\<rparr>"

definition slot_taken :: download_manager where
  "slot_taken =
     on_response (addToQueue one_slot ''job-x'' ''https://youtu.be/x'' ''720p'' None 100)
       ''job-x'' None"

definition one_waiting :: download_manager where
  "one_waiting = addToQueue slot_taken ''job-a'' ''https://youtu.be/a'' ''720p'' None 200"

definition two_waiting :: download_manager where
  "two_waiting = addToQueue one_waiting ''job-b'' ''https://youtu.be/b'' ''720p'' (Some 1) 300"

definition slot_freed :: download_manager where
  "slot_freed = two_waiting\<lparr>downloads := AList.delete ''job-x'' (downloads two_waiting)\<rparr>"

section \<open>Properties of the server\<close>

subsection \<open>Cancel endpoint\<close>

text \<open>
  C9. Cancellation is total: for every server state and every job id, also one with no
  running process or one never submitted, the cancel endpoint answers with success, and
  afterwards neither the running-process table nor the active-jobs table has an entry
  for that id.
\<close>

theorem cancel_total:
  "fst (cancel s downloadId) = Success [(''message'', ''Download cancelled'')]
   \<and> downloadProcesses (snd (cancel s downloadId)) downloadId = None
   \<and> activeDownloads (snd (cancel s downloadId)) downloadId = None"
  by (simp add: cancel_def Let_def split: option.splits)

subsection \<open>Outcome of the fetch\<close>

text \<open>
  C1. When the extraction process closes, the job goes on (to the enhancement, or to
  the ready event) if and only if the exit code is 0 and the artifact file exists. In
  every other case (exit 0 without the file, any other exit code, no exit code) the only
  event is the error event and the job is removed from both tables.
\<close>

theorem close_decides_outcome:
  "(let r = on_close s downloadId fp enh code;
        evs = fst r; s' = fst (snd r); enhance = snd (snd r);
        ok = (code = Some 0 \<and> existsSync (disk s) fp)
    in ((enhance \<or> list_ex is_ready evs) = ok)
     \<and> (list_ex is_error evs = (\<not> ok))
     \<and> (ok \<longrightarrow> enhance = some_truthy enh \<and> activeDownloads s' = activeDownloads s)
     \<and> (\<not> ok \<longrightarrow> evs = [download_error downloadId ''Download failed'']
            \<and> \<not> enhance
            \<and> activeDownloads s' downloadId = None
            \<and> downloadProcesses s' downloadId = None))"
  by (simp add: on_close_def Let_def is_ready_def is_error_def)

theorem close_decides_outcome_witness:
  "(let r = on_close example_server job_id (''downloads/YouTube'', job_id @ ''.mp4'')
              (Some [(''noiseReduction'', True)]) (Some 0)
    in snd (snd r) \<and> activeDownloads (fst (snd r)) = activeDownloads example_server)
   \<and> (let r = on_close example_server job_id (''downloads/YouTube'', ''missing.mp4'')
              None (Some 0)
    in fst r = [download_error job_id ''Download failed'']
       \<and> activeDownloads (fst (snd r)) job_id = None)
   \<and> (let r = on_close example_server job_id (''downloads/YouTube'', job_id @ ''.mp4'')
              None (Some 1)
    in fst r = [download_error job_id ''Download failed'']
       \<and> activeDownloads (fst (snd r)) job_id = None)"
  using close_decides_outcome [of example_server job_id
      "(''downloads/YouTube'', job_id @ ''.mp4'')" "Some [(''noiseReduction'', True)]" "Some 0"]
    close_decides_outcome [of example_server job_id "(''downloads/YouTube'', ''missing.mp4'')"
      None "Some 0"]
    close_decides_outcome [of example_server job_id
      "(''downloads/YouTube'', job_id @ ''.mp4'')" None "Some 1"]
  by (simp add: Let_def existsSync_def example_server_def example_disk_def some_truthy_def
      job_id_def)

subsection \<open>Submission\<close>

lemma post_download_any_url:
  "fst (post_download s body downloadId platform) = Success [(''downloadId'', downloadId)]
   \<and> activeDownloads (snd (snd (post_download s body downloadId platform))) downloadId \<noteq> None
   \<and> downloadProcesses (snd (snd (post_download s body downloadId platform))) downloadId \<noteq> None"
  by (simp add: post_download_def startDownload_def Let_def)

lemma post_download_sets_filePath:
  "activeDownloads (snd (snd (post_download s body downloadId platform))) downloadId = Some d
   \<Longrightarrow> filePath d \<noteq> None"
  by (auto simp: post_download_def startDownload_def Let_def)

text \<open>
  C8. A request whose url does not start with a transfer scheme is to be rejected before
  a job exists. The analyze endpoint rejects the url \<open>not-a-url\<close> with status 400;
  the download endpoint, given the same url, answers with success and a job id, stores
  the job and spawns the extraction process on that url.
\<close>

theorem download_url_not_validated:
  "analyze (req_url example_body)
     = Rejected (Failure 400 ''Invalid URL. Please provide a valid video URL.'')
   \<and> fst (post_download empty_server example_body job_id ''Unknown'')
       = Success [(''downloadId'', job_id)]
   \<and> activeDownloads (snd (snd (post_download empty_server example_body job_id ''Unknown'')))
       job_id \<noteq> None
   \<and> downloadProcesses (snd (snd (post_download empty_server example_body job_id ''Unknown'')))
       job_id
       = Some [''not-a-url'', ''--extractor-args'', ''youtube:player_client=android'',
               ''--no-check-certificate'', ''--output'',
               ''downloads/Unknown/'' @ job_id @ ''.mp4'']"
  by (simp add: analyze_def startsWith_def example_body_def post_download_def startDownload_def
      empty_server_def Let_def ytdlpArgs_def path_string_def path_join_def DOWNLOADS_DIR_def)

subsection \<open>The file system\<close>

lemma existsSync_unlinkSync: "existsSync (unlinkSync d p) q = (existsSync d q \<and> q \<noteq> p)"
  by (auto simp: existsSync_def unlinkSync_def)

lemma readFile_unlinkSync: "q \<noteq> p \<Longrightarrow> readFile (unlinkSync d p) q = readFile d q"
  unfolding readFile_def unlinkSync_def by (induction d) auto

subsection \<open>Cleanup endpoint\<close>

text \<open>The sweep removes no path twice, and what it has removed is gone.\<close>

lemma sweep_fresh:
  "distinct del \<Longrightarrow> list_all (\<lambda>p. \<not> existsSync d p) del \<Longrightarrow>
   distinct (fst (sweep i dir files (del, d)))
   \<and> list_all (\<lambda>p. \<not> existsSync (snd (sweep i dir files (del, d))) p)
        (fst (sweep i dir files (del, d)))"
proof (induction files arbitrary: del d)
  case Nil
  then show ?case by simp
next
  case (Cons f fs)
  show ?case
  proof (cases "includes_str f i \<and> existsSync d (path_join dir f)")
    case True
    let ?p = "path_join dir f"
    have d1: "distinct (del @ [?p])"
      using Cons.prems True by (auto simp: list_all_iff)
    have d2: "list_all (\<lambda>p. \<not> existsSync (unlinkSync d ?p) p) (del @ [?p])"
      using Cons.prems by (auto simp: list_all_iff existsSync_unlinkSync)
    from Cons.IH [OF d1 d2] True show ?thesis by (simp add: Let_def)
  next
    case False
    with Cons.IH [OF Cons.prems] show ?thesis by (auto simp: Let_def)
  qed
qed

text \<open>
  C6. Cleanup by job id is idempotent. For a job whose entry has its file path (every
  entry has, once the download endpoint has returned), the first call answers success;
  the second call answers success as well, removes no file and leaves the state as it
  is; and over both calls no path is removed twice, so the artifact is deleted at most
  once.
\<close>

theorem cleanup_idempotent:
  assumes "\<And>d. activeDownloads s downloadId = Some d \<Longrightarrow> filePath d \<noteq> None"
  shows "(let (r1, del1, s1) = cleanup s downloadId;
              (r2, del2, s2) = cleanup s1 downloadId
          in r1 = Success [] \<and> r2 = Success [] \<and> del2 = [] \<and> s2 = s1
             \<and> distinct (del1 @ del2))"
proof (cases "activeDownloads s downloadId")
  case None
  then show ?thesis by (simp add: cleanup_def)
next
  case (Some download)
  with assms obtain p where p: "filePath download = Some p" by auto
  define acc where
    "acc = (if existsSync (disk s) p then ([p], unlinkSync (disk s) p) else ([], disk s))"
  have a1: "distinct (fst acc)" and a2: "list_all (\<lambda>q. \<not> existsSync (snd acc) q) (fst acc)"
    by (simp_all add: acc_def existsSync_unlinkSync)
  define res where
    "res = sweep downloadId (path_dirname p) (readdirSync (snd acc) (path_dirname p)) acc"
  have "distinct (fst res)"
    using sweep_fresh [OF a1 a2, of downloadId "path_dirname p"
        "readdirSync (snd acc) (path_dirname p)"]
    by (simp add: res_def)
  then show ?thesis
    using Some p
    by (auto simp: cleanup_def Let_def acc_def res_def split: prod.splits if_splits)
qed

theorem cleanup_idempotent_witness:
  "(let (r1, del1, s1) = cleanup example_server job_id;
        (r2, del2, s2) = cleanup s1 job_id
    in r1 = Success [] \<and> r2 = Success []
       \<and> del1 = [(''downloads/YouTube'', job_id @ ''.mp4'')] \<and> del2 = [])"
proof -
  have h: "\<And>d. activeDownloads example_server job_id = Some d \<Longrightarrow> filePath d \<noteq> None"
    by (simp add: example_server_def example_download_def)
  have c: "fst (snd (cleanup example_server job_id)) = [(''downloads/YouTube'', job_id @ ''.mp4'')]"
    by code_simp
  show ?thesis
    using cleanup_idempotent [of example_server job_id, OF h] c
    by (simp add: Let_def split: prod.splits)
qed

subsection \<open>Failure of the enhancement\<close>

text \<open>
  What the 'error' handler does on the state it finds: if the job is active and the
  video file the process was started on is still there, the ready event and the
  completion event for that file are emitted, the temporary output is gone and the
  video file has the content it had.
\<close>

lemma on_error_completes:
  assumes "activeDownloads s downloadId = Some download" and "videoFile \<noteq> []"
    and "existsSync (disk s) (path_join outputDir videoFile)"
  shows "fst (on_error s downloadId outputDir videoFile)
           = [download_ready downloadId (downloadUrl downloadId),
              download_complete downloadId (path_join outputDir videoFile) videoFile
                (stat_size (disk s) (path_join outputDir videoFile))]"
    and "\<not> existsSync (disk (snd (on_error s downloadId outputDir videoFile)))
             (path_join outputDir (''enhanced_'' @ videoFile))"
    and "readFile (disk (snd (on_error s downloadId outputDir videoFile)))
             (path_join outputDir videoFile)
           = readFile (disk s) (path_join outputDir videoFile)"
proof -
  let ?in = "path_join outputDir videoFile"
  let ?out = "path_join outputDir (''enhanced_'' @ videoFile)"
  define s1 where "s1 = (if existsSync (disk s) ?out
                         then s\<lparr>disk := unlinkSync (disk s) ?out\<rparr> else s)"
  have ne: "?in \<noteq> ?out" by (simp add: path_join_def)
  have act: "activeDownloads s1 downloadId = Some download"
    using assms(1) by (simp add: s1_def)
  have ex: "existsSync (disk s1) ?in"
    using assms(3) ne by (simp add: s1_def existsSync_unlinkSync)
  have rd: "readFile (disk s1) ?in = readFile (disk s) ?in"
    using ne by (simp add: s1_def readFile_unlinkSync)
  have out: "\<not> existsSync (disk s1) ?out"
    by (simp add: s1_def existsSync_unlinkSync)
  have "on_error s downloadId outputDir videoFile
        = completeDownload s1 downloadId outputDir (Some videoFile)"
    by (simp add: on_error_def Let_def s1_def)
  also have "\<dots> = ([download_ready downloadId (downloadUrl downloadId),
                download_complete downloadId ?in videoFile (stat_size (disk s1) ?in)], s1)"
    using act ex assms(2) by (simp add: completeDownload_def Let_def)
  finally have cd: "on_error s downloadId outputDir videoFile
            = ([download_ready downloadId (downloadUrl downloadId),
                download_complete downloadId ?in videoFile (stat_size (disk s1) ?in)], s1)" .
  show "fst (on_error s downloadId outputDir videoFile)
           = [download_ready downloadId (downloadUrl downloadId),
              download_complete downloadId ?in videoFile (stat_size (disk s) ?in)]"
    using rd by (simp add: cd stat_size_def)
  show "\<not> existsSync (disk (snd (on_error s downloadId outputDir videoFile))) ?out"
    using out by (simp add: cd)
  show "readFile (disk (snd (on_error s downloadId outputDir videoFile))) ?in
        = readFile (disk s) ?in"
    using rd by (simp add: cd)
qed

text \<open>
  C3. A failed enhancement is to end with the job ready, on its own unenhanced artifact.
  On the server with two jobs the search for the downloaded file takes the first listed
  name that ends in .mp4, which is the file of the older job, and the transcode process
  of the second job is started on it. When that process fails, the second job is
  completed with the file of the older job: the completion event names that file and its
  size. When the client of the older job has confirmed its delivery in the meantime, so
  that the older file is removed, the failure of the process ends the second job with the
  error event and no ready event, although its own artifact is on the disk unchanged.
\<close>

theorem enhancement_failure_other_file:
  "snd (snd (applyEnhancements two_jobs job_id ''downloads/YouTube''
       (readdirSync (disk two_jobs) ''downloads/YouTube'') False))
     = Some (older_id @ ''.mp4'')
   \<and> fst (on_error two_jobs_transcoding job_id ''downloads/YouTube'' (older_id @ ''.mp4''))
     = [download_ready job_id (downloadUrl job_id),
        download_complete job_id (''downloads/YouTube'', older_id @ ''.mp4'')
          (older_id @ ''.mp4'') 11]
   \<and> fst (cleanup two_jobs_transcoding older_id) = Success []
   \<and> fst (on_error older_cleaned job_id ''downloads/YouTube'' (older_id @ ''.mp4''))
     = [download_error job_id ''File not found after processing'']
   \<and> readFile (disk older_cleaned) (''downloads/YouTube'', job_id @ ''.mp4'') = Some ''video''"
  by code_simp

subsection \<open>Synthetic progress\<close>

lemma Math_round_mono: "x \<le> y \<Longrightarrow> Math_round x \<le> Math_round y"
  by (simp add: Math_round_def floor_mono)

lemma Math_round_int: "Math_round (of_int k) = k"
  unfolding Math_round_def by linarith

lemma Math_round_add5: "Math_round (x + 5) = Math_round x + 5"
  unfolding Math_round_def by linarith

text \<open>
  From a counter between 0 and 95, every tick emits a value between 0 and 95 that is
  at least 5 above the one before, or 95.
\<close>

lemma fetch_ticks_steps:
  assumes "0 \<le> p" and "p \<le> 95" and "random_values rs"
  shows "successively (\<lambda>v v'. min 95 (v + 5) \<le> v') (Math_round p # fetch_ticks p rs)
         \<and> list_all (\<lambda>v. 0 \<le> v \<and> v \<le> 95) (Math_round p # fetch_ticks p rs)"
  using assms
proof (induction rs arbitrary: p)
  case Nil
  have "Math_round 0 \<le> Math_round p" "Math_round p \<le> Math_round 95"
    using Nil by (auto intro: Math_round_mono)
  then show ?case using Math_round_int [of 0] Math_round_int [of 95] by simp
next
  case (Cons r rs)
  define p2 where "p2 = (if p + (r * 15 + 5) > 95 then 95 else p + (r * 15 + 5))"
  from Cons.prems have r: "0 \<le> r" "r < 1" and rs: "random_values rs"
    by (simp_all add: random_values_def)
  have p2: "0 \<le> p2" "p2 \<le> 95" using Cons.prems(1) r by (auto simp: p2_def)
  have ge: "min 95 (p + 5) \<le> p2" using r by (auto simp: p2_def)
  have "min 95 (Math_round p + 5) \<le> Math_round p2"
  proof (cases "p + 5 \<le> 95")
    case True
    with ge have "p + 5 \<le> p2" by simp
    then have "Math_round (p + 5) \<le> Math_round p2" by (rule Math_round_mono)
    then show ?thesis by (simp add: Math_round_add5)
  next
    case False
    with ge have "p2 = 95" using p2 by simp
    then show ?thesis using Math_round_int [of 95] by simp
  qed
  moreover have b: "0 \<le> Math_round p \<and> Math_round p \<le> 95"
    using Math_round_mono [of 0 p] Math_round_mono [of p 95] Cons.prems
      Math_round_int [of 0] Math_round_int [of 95] by simp
  ultimately show ?case
    using Cons.IH [OF p2 rs] by (simp add: Let_def p2_def)
qed

lemma steps_sorted:
  assumes "successively (\<lambda>v v'. min 95 (v + 5) \<le> v') xs"
    and "list_all (\<lambda>v. v \<le> (95::int)) xs"
  shows "sorted xs"
proof -
  from assms have "successively (\<le>) xs"
  proof (induction xs rule: induct_list012)
    case (3 x y zs)
    then show ?case by (auto simp: min_def split: if_splits)
  qed simp_all
  then show ?thesis
    by (simp add: successively_conv_sorted_wrt [OF transp_on_le])
qed

lemma steps_reach:
  "successively (\<lambda>v v'. min 95 (v + 5) \<le> v') (x # xs)
   \<Longrightarrow> min 95 (x + 5 * int (length xs)) \<le> last (x # xs)"
proof (induction xs arbitrary: x)
  case Nil
  then show ?case by simp
next
  case (Cons y ys)
  then have "min 95 (x + 5) \<le> y" and "min 95 (y + 5 * int (length ys)) \<le> last (y # ys)"
    by auto
  then show ?case by (auto simp: min_def split: if_splits)
qed

lemma length_fetch_ticks: "length (fetch_ticks p rs) = length rs"
  by (induction rs arbitrary: p) (simp_all add: Let_def)

lemma fetch_stage_steps:
  assumes "random_values rs"
  shows "successively (\<lambda>v v'. min 95 (v + 5) \<le> v') (fetch_stage rs)"
    and "list_all (\<lambda>v. 0 \<le> v \<and> v \<le> 95) (fetch_stage rs)"
    and "sorted (fetch_stage rs)"
proof -
  show s: "successively (\<lambda>v v'. min 95 (v + 5) \<le> v') (fetch_stage rs)"
    and b: "list_all (\<lambda>v. 0 \<le> v \<and> v \<le> 95) (fetch_stage rs)"
    using fetch_ticks_steps [of 0 rs] assms Math_round_int [of 0]
    by (simp_all add: fetch_stage_def)
  from b have "list_all (\<lambda>v. v \<le> 95) (fetch_stage rs)"
    by (simp add: list_all_iff)
  with s show "sorted (fetch_stage rs)" by (rule steps_sorted)
qed

text \<open>
  C5, as the code has it. For random values in [0,1) the values emitted in the fetch
  stage are non-decreasing integers between 0 and 95, both included; each tick emits at
  least 5 more than the tick before, or the cap 95; and from the 19th tick on the value
  emitted is 95, so the cap is reached and then repeated with no increment.
\<close>

theorem fetch_progress_capped:
  assumes "random_values rs"
  shows "sorted (fetch_stage rs)
         \<and> list_all (\<lambda>v. 0 \<le> v \<and> v \<le> 95) (fetch_stage rs)
         \<and> successively (\<lambda>v v'. min 95 (v + 5) \<le> v') (fetch_stage rs)
         \<and> (19 \<le> length rs \<longrightarrow> last (fetch_stage rs) = 95)"
proof -
  note s = fetch_stage_steps(1) [OF assms] and b = fetch_stage_steps(2) [OF assms]
    and srt = fetch_stage_steps(3) [OF assms]
  have "last (fetch_stage rs) = 95" if "19 \<le> length rs"
  proof -
    have "min 95 (0 + 5 * int (length (fetch_ticks 0 rs))) \<le> last (fetch_stage rs)"
      using s unfolding fetch_stage_def by (rule steps_reach)
    moreover have "length (fetch_ticks 0 rs) = length rs"
      by (rule length_fetch_ticks)
    moreover have "last (fetch_stage rs) \<le> 95"
      using b by (simp add: list_all_iff fetch_stage_def)
    ultimately show ?thesis using that by simp
  qed
  with srt b s show ?thesis by simp
qed

theorem fetch_progress_capped_witness:
  "random_values (replicate 19 0) \<and> 19 \<le> length (replicate 19 (0::real))
   \<and> sorted (fetch_stage (replicate 19 0)) \<and> last (fetch_stage (replicate 19 0)) = 95"
proof -
  have h: "random_values (replicate 19 0)"
    by (simp add: random_values_def list_all_iff)
  from fetch_progress_capped [OF h] h show ?thesis by simp
qed

text \<open>
  The claim of values strictly below 95 with a strictly positive increment at each step
  fails: with seven random values 0.8 the ticks emit 17, 34, 51, 68, 85, then 95, then
  95 again.
\<close>

theorem fetch_reaches_cap_counterexample:
  "random_values [4/5, 4/5, 4/5, 4/5, 4/5, 4/5, 4/5]
   \<and> fetch_stage [4/5, 4/5, 4/5, 4/5, 4/5, 4/5, 4/5] = [0, 17, 34, 51, 68, 85, 95, 95]"
  by (simp add: random_values_def fetch_stage_def Math_round_def Let_def)

lemma sorted_le_last: "sorted xs \<Longrightarrow> x \<in> set xs \<Longrightarrow> x \<le> last xs"
  by (induction xs) auto

lemma enhance_ticks_steps:
  assumes "0 \<le> e" and "random_values rs"
  shows "sorted (Math_round (90 + e * (1 / 10)) # enhance_ticks e rs)
         \<and> list_all (\<lambda>v. 90 \<le> v) (Math_round (90 + e * (1 / 10)) # enhance_ticks e rs)"
  using assms
proof (induction rs arbitrary: e)
  case Nil
  have "Math_round 90 \<le> Math_round (90 + e * (1 / 10))"
    using Nil by (intro Math_round_mono) simp
  then show ?case using Math_round_int [of 90] by simp
next
  case (Cons r rs)
  from Cons.prems have r: "0 \<le> r" "r < 1" and rs: "random_values rs"
    by (simp_all add: random_values_def)
  have base: "90 \<le> Math_round (90 + e * (1 / 10))"
    using Math_round_mono [of 90 "90 + e * (1 / 10)"] Cons.prems(1) Math_round_int [of 90]
    by simp
  show ?case
  proof (cases "e < 95")
    case True
    define e1 where "e1 = e + (r * 10 + 5)"
    have e1: "0 \<le> e1" "e \<le> e1" using Cons.prems(1) r by (simp_all add: e1_def)
    then have "Math_round (90 + e * (1 / 10)) \<le> Math_round (90 + e1 * (1 / 10))"
      by (intro Math_round_mono) simp
    with Cons.IH [OF e1(1) rs] True base show ?thesis
      by (auto simp: Let_def e1_def)
  next
    case False
    with base show ?thesis by simp
  qed
qed

text \<open>
  C4, as the code has it. For random values in [0,1) the enhancement stage starts at
  the baseline 90, every value it emits is an integer of at least 90, and its values
  are non-decreasing. The sequence of both stages is non-decreasing exactly when the
  fetch stage ended at 90 or below: entering the enhancement stage resets the value to
  90, whatever the fetch stage had reached.
\<close>

theorem enhance_progress_band:
  assumes "random_values rs1" and "random_values rs2"
  shows "hd (enhance_stage rs2) = 90
         \<and> list_all (\<lambda>v. 90 \<le> v) (enhance_stage rs2)
         \<and> sorted (enhance_stage rs2)
         \<and> sorted (fetch_stage rs1 @ enhance_stage rs2) = (last (fetch_stage rs1) \<le> 90)"
proof -
  have e: "sorted (enhance_stage rs2)" "list_all (\<lambda>v. 90 \<le> v) (enhance_stage rs2)"
    using enhance_ticks_steps [of 0 rs2] assms(2) Math_round_int [of 90]
    by (simp_all add: enhance_stage_def)
  have h: "hd (enhance_stage rs2) = 90" "90 \<in> set (enhance_stage rs2)"
    by (simp_all add: enhance_stage_def)
  note f = fetch_stage_steps(3) [OF assms(1)]
  have ne: "fetch_stage rs1 \<noteq> []" by (simp add: fetch_stage_def)
  have "(\<forall>x\<in>set (fetch_stage rs1). \<forall>y\<in>set (enhance_stage rs2). x \<le> y)
        = (last (fetch_stage rs1) \<le> 90)"
  proof
    assume "\<forall>x\<in>set (fetch_stage rs1). \<forall>y\<in>set (enhance_stage rs2). x \<le> y"
    with ne h(2) show "last (fetch_stage rs1) \<le> 90" by (meson last_in_set)
  next
    assume l: "last (fetch_stage rs1) \<le> 90"
    show "\<forall>x\<in>set (fetch_stage rs1). \<forall>y\<in>set (enhance_stage rs2). x \<le> y"
    proof (intro ballI)
      fix x y assume "x \<in> set (fetch_stage rs1)" and "y \<in> set (enhance_stage rs2)"
      then have "x \<le> last (fetch_stage rs1)" and "90 \<le> y"
        using f e(2) by (auto simp: sorted_le_last list_all_iff)
      with l show "x \<le> y" by simp
    qed
  qed
  with e f h(1) show ?thesis by (simp add: sorted_append)
qed

theorem enhance_progress_band_witness:
  "random_values [4/5, 4/5] \<and> random_values [1/2, 1/2]
   \<and> fetch_stage [4/5, 4/5] @ enhance_stage [1/2, 1/2] = [0, 17, 34, 90, 90, 91, 92]
   \<and> sorted (fetch_stage [4/5, 4/5] @ enhance_stage [1/2, 1/2])"
proof -
  have h1: "random_values [4/5, 4/5]" and h2: "random_values [1/2, 1/2]"
    by (simp_all add: random_values_def)
  have v: "fetch_stage [4/5, 4/5] = [0, 17, 34]" "enhance_stage [1/2, 1/2] = [90, 90, 91, 92]"
    by (simp_all add: fetch_stage_def enhance_stage_def Math_round_def Let_def)
  from enhance_progress_band [OF h1 h2] h1 h2 v show ?thesis by simp
qed

text \<open>
  The claim of a band [90,100] and of a sequence non-decreasing across the two stages
  fails: the fetch stage can end at 95, above the baseline 90 that follows it, and the
  enhancement stage can emit 101 (a counter of 94.5 is below 95, the next tick adds
  14.9).
\<close>

theorem enhance_band_counterexample:
  "random_values [4/5, 4/5, 4/5, 4/5, 4/5, 4/5]
   \<and> random_values [11/20, 11/20, 11/20, 11/20, 11/20, 11/20, 11/20, 11/20, 11/20, 99/100]
   \<and> fetch_stage [4/5, 4/5, 4/5, 4/5, 4/5, 4/5] = [0, 17, 34, 51, 68, 85, 95]
   \<and> enhance_stage [11/20, 11/20, 11/20, 11/20, 11/20, 11/20, 11/20, 11/20, 11/20, 99/100]
       = [90, 90, 91, 92, 93, 94, 95, 96, 97, 98, 99, 101]"
  by (simp add: random_values_def fetch_stage_def enhance_stage_def Math_round_def Let_def)

section \<open>Properties of the client download manager\<close>

subsection \<open>The queue\<close>

lemma mset_insert_item: "mset (insert_item x ys) = add_mset x (mset ys)"
  by (induction ys) auto

lemma mset_sortQueue: "mset (sortQueue q) = mset q"
  unfolding sortQueue_def by (induction q) (auto simp: mset_insert_item)

lemma compare_items_le: "compare_items a b \<le> 0 \<longleftrightarrow> comes_first a b"
  by (auto simp: compare_items_def comes_first_def)

lemma comes_first_total: "\<not> comes_first a b \<Longrightarrow> comes_first b a"
  by (auto simp: comes_first_def)

lemma comes_first_trans: "comes_first a b \<Longrightarrow> comes_first b c \<Longrightarrow> comes_first a c"
  by (auto simp: comes_first_def)

lemma set_insert_item: "set (insert_item x ys) = insert x (set ys)"
  by (induction ys) auto

lemma sorted_insert_item:
  "sorted_wrt comes_first ys \<Longrightarrow> sorted_wrt comes_first (insert_item x ys)"
proof (induction ys)
  case Nil
  then show ?case by simp
next
  case (Cons y ys)
  show ?case
  proof (cases "compare_items x y \<le> 0")
    case True
    then have "comes_first x y" by (simp add: compare_items_le)
    with Cons.prems have "\<forall>z\<in>set (y # ys). comes_first x z"
      by (auto intro: comes_first_trans)
    with True Cons.prems show ?thesis by simp
  next
    case False
    then have "comes_first y x" by (simp add: compare_items_le comes_first_total)
    with False Cons show ?thesis by (auto simp: set_insert_item)
  qed
qed

lemma sorted_sortQueue: "sorted_wrt comes_first (sortQueue q)"
  unfolding sortQueue_def by (induction q) (auto simp: sorted_insert_item)

text \<open>Stability: items with the same priority and time keep their order.\<close>

lemma filter_insert_item:
  "filter (\<lambda>y. priority y = p \<and> addedAt y = t) (insert_item x ys)
   = filter (\<lambda>y. priority y = p \<and> addedAt y = t) (x # ys)"
  by (induction ys) (auto simp: compare_items_def)

lemma filter_sortQueue:
  "filter (\<lambda>y. priority y = p \<and> addedAt y = t) (sortQueue q)
   = filter (\<lambda>y. priority y = p \<and> addedAt y = t) q"
  unfolding sortQueue_def by (induction q) (auto simp: filter_insert_item)

lemma processQueue_admits:
  assumes "\<not> isProcessingQueue m" and "downloadQueue m = x # xs"
    and "length (downloads m) < maxConcurrentDownloads m"
  shows "downloadQueue (processQueue m) = xs"
    and "requests (processQueue m) = requests m @ [Post_download (item_id x)]"
    and "map_of (downloads (processQueue m)) (item_id x) \<noteq> None"
  using assms
  by (simp_all add: processQueue_def processQueue_loop_def dm_startDownload_def Let_def
      update_conv')

lemma processQueue_keeps:
  "retryAttempts (processQueue m) = retryAttempts m"
  "messages (processQueue m) = messages m"
  "prefix (requests m) (requests (processQueue m))"
  "timers (processQueue m) = timers m
   \<or> timers (processQueue m) = timers m @ [(1000, ProcessQueue_timer)]"
  by (simp_all add: processQueue_def processQueue_loop_def dm_startDownload_def Let_def
      split: list.splits)

lemma processQueue_absent:
  assumes "map_of (downloads m) i = None" and "i \<notin> set (map item_id (downloadQueue m))"
  shows "map_of (downloads (processQueue m)) i = None"
  using assms
  by (auto simp: processQueue_def processQueue_loop_def dm_startDownload_def Let_def update_conv'
      split: list.splits)

text \<open>
  C2, as the code has it. \<open>sortQueue\<close> orders the queue by priority descending, then
  by enqueue time ascending; it keeps the items, and items with the same priority and
  time keep their insertion order. When the queue is processed with a free slot, the
  head of the queue is admitted: its request is sent and the rest stays queued, so of
  two waiting jobs the one with the higher priority is admitted first. A job submitted
  to an idle manager with an empty queue and a free slot is admitted at once, whatever
  its priority.
\<close>

theorem queue_order:
  "sorted_wrt (\<lambda>a b. priority b < priority a
                  \<or> (priority a = priority b \<and> addedAt a \<le> addedAt b)) (sortQueue q)
   \<and> mset (sortQueue q) = mset q
   \<and> filter (\<lambda>y. priority y = p \<and> addedAt y = t) (sortQueue q)
       = filter (\<lambda>y. priority y = p \<and> addedAt y = t) q
   \<and> (\<not> isProcessingQueue m \<and> downloadQueue m = x # xs
        \<and> length (downloads m) < maxConcurrentDownloads m
      \<longrightarrow> downloadQueue (processQueue m) = xs
          \<and> requests (processQueue m) = requests m @ [Post_download (item_id x)]
          \<and> map_of (downloads (processQueue m)) (item_id x) \<noteq> None)
   \<and> (\<not> isProcessingQueue m' \<and> downloadQueue m' = []
        \<and> length (downloads m') < maxConcurrentDownloads m'
      \<longrightarrow> downloadQueue (addToQueue m' i url qual prio now) = []
          \<and> requests (addToQueue m' i url qual prio now) = requests m' @ [Post_download i])"
proof -
  have a: "sorted_wrt (\<lambda>a b. priority b < priority a
                  \<or> (priority a = priority b \<and> addedAt a \<le> addedAt b)) (sortQueue q)"
    using sorted_sortQueue [of q] by (simp add: comes_first_def [abs_def])
  have e: "downloadQueue (addToQueue m' i url qual prio now) = []
          \<and> requests (addToQueue m' i url qual prio now) = requests m' @ [Post_download i]"
    if "\<not> isProcessingQueue m'" "downloadQueue m' = []"
       "length (downloads m') < maxConcurrentDownloads m'"
    using that
    by (simp add: addToQueue_def sortQueue_def processQueue_def processQueue_loop_def
        dm_startDownload_def Let_def)
  show ?thesis
    using a e processQueue_admits [of m x xs]
    by (simp add: mset_sortQueue filter_sortQueue)
qed

theorem queue_order_witness:
  "map item_id (downloadQueue two_waiting) = [''job-b'', ''job-a'']
   \<and> requests (processQueue slot_freed) = [Post_download ''job-x'', Post_download ''job-b'']
   \<and> map item_id (downloadQueue (processQueue slot_freed)) = [''job-a'']
   \<and> requests (addToQueue one_slot ''job-a'' ''https://youtu.be/a'' ''720p'' None 200)
       = [Post_download ''job-a'']"
proof -
  have h1: "\<not> isProcessingQueue slot_freed
     \<and> downloadQueue slot_freed
        = \<lparr>item_id = ''job-b'', item_url = ''https://youtu.be/b'', item_quality = ''720p'',
            item_status = ''queued'', addedAt = 300, priority = 1\<rparr>
          # [\<lparr>item_id = ''job-a'', item_url = ''https://youtu.be/a'', item_quality = ''720p'',
               item_status = ''queued'', addedAt = 200, priority = 0\<rparr>]
     \<and> length (downloads slot_freed) < maxConcurrentDownloads slot_freed"
    by code_simp
  have h2: "\<not> isProcessingQueue one_slot \<and> downloadQueue one_slot = []
     \<and> length (downloads one_slot) < maxConcurrentDownloads one_slot"
    by code_simp
  have r: "requests slot_freed = [Post_download ''job-x''] \<and> requests one_slot = []
     \<and> map item_id (downloadQueue two_waiting) = [''job-b'', ''job-a'']"
    by code_simp
  show ?thesis
    using h1 h2 r
      queue_order [of "[]" 0 0 slot_freed
        "\<lparr>item_id = ''job-b'', item_url = ''https://youtu.be/b'', item_quality = ''720p'',
            item_status = ''queued'', addedAt = 300, priority = 1\<rparr>"
        "[\<lparr>item_id = ''job-a'', item_url = ''https://youtu.be/a'', item_quality = ''720p'',
               item_status = ''queued'', addedAt = 200, priority = 0\<rparr>]"
        one_slot "''job-a''" "''https://youtu.be/a''" "''720p''" None 200]
    by simp
qed

text \<open>
  The scenario of the claim fails from an idle manager with one slot: job a (priority 0)
  is admitted when it is submitted, and job b (priority 1), submitted after it, waits in
  the queue; the only request sent is the one for a.
\<close>

theorem priority_scenario_counterexample:
  "map fst (downloads (addToQueue
       (addToQueue one_slot ''job-a'' ''https://youtu.be/a'' ''720p'' None 200)
       ''job-b'' ''https://youtu.be/b'' ''720p'' (Some 1) 300)) = [''job-a'']
   \<and> map item_id (downloadQueue (addToQueue
       (addToQueue one_slot ''job-a'' ''https://youtu.be/a'' ''720p'' None 200)
       ''job-b'' ''https://youtu.be/b'' ''720p'' (Some 1) 300)) = [''job-b'']
   \<and> requests (addToQueue
       (addToQueue one_slot ''job-a'' ''https://youtu.be/a'' ''720p'' None 200)
       ''job-b'' ''https://youtu.be/b'' ''720p'' (Some 1) 300) = [Post_download ''job-a'']"
  by code_simp

subsection \<open>Cancelling\<close>

text \<open>
  C7, as the code has it. \<open>cancelDownload\<close> acts on active downloads only. For an id
  that is not in the table of active downloads, as the id of a job still queued, it
  changes nothing: the job stays in the queue and no cancel request is sent. For an
  active download (whose id is not queued as well) it removes the entry and its retry
  count and sends the cancel request.
\<close>

theorem cancel_only_active:
  "(map_of (downloads m) i = None \<longrightarrow> cancelDownload m i = m)
   \<and> (map_of (downloads m) i \<noteq> None \<and> i \<notin> set (map item_id (downloadQueue m))
      \<longrightarrow> map_of (downloads (cancelDownload m i)) i = None
          \<and> retryAttempts (cancelDownload m i) i = None
          \<and> Post_cancel i \<in> set (requests (cancelDownload m i)))"
proof -
  have 1: "cancelDownload m i = m" if "map_of (downloads m) i = None"
    using that by (simp add: cancelDownload_def)
  have 2: "map_of (downloads (cancelDownload m i)) i = None
          \<and> retryAttempts (cancelDownload m i) i = None
          \<and> Post_cancel i \<in> set (requests (cancelDownload m i))"
    if a: "map_of (downloads m) i \<noteq> None" and q: "i \<notin> set (map item_id (downloadQueue m))"
  proof -
    define m2 where "m2 = m\<lparr>downloads := AList.delete i (downloads m),
               retryAttempts := (retryAttempts m)(i := None),
               requests := requests m @ [Post_cancel i]\<rparr>"
    from a have c: "cancelDownload m i = processQueue m2"
      by (auto simp: cancelDownload_def m2_def)
    have "map_of (downloads m2) i = None" by (simp add: m2_def delete_conv')
    moreover have "i \<notin> set (map item_id (downloadQueue m2))" using q by (simp add: m2_def)
    ultimately have d: "map_of (downloads (processQueue m2)) i = None"
      by (rule processQueue_absent)
    have r: "retryAttempts (processQueue m2) i = None"
      by (simp add: processQueue_keeps m2_def)
    have "Post_cancel i \<in> set (requests m2)" by (simp add: m2_def)
    with processQueue_keeps(3) [of m2] have "Post_cancel i \<in> set (requests (processQueue m2))"
      by (auto simp: prefix_def)
    with c d r show ?thesis by simp
  qed
  from 1 2 show ?thesis by blast
qed

theorem cancel_only_active_witness:
  "cancelDownload one_waiting ''job-a'' = one_waiting
   \<and> map_of (downloads (cancelDownload one_waiting ''job-x'')) ''job-x'' = None
   \<and> Post_cancel ''job-x'' \<in> set (requests (cancelDownload one_waiting ''job-x''))"
proof -
  have h: "map_of (downloads one_waiting) ''job-a'' = None
     \<and> map_of (downloads one_waiting) ''job-x'' \<noteq> None
     \<and> ''job-x'' \<notin> set (map item_id (downloadQueue one_waiting))"
    by code_simp
  show ?thesis
    using h cancel_only_active [of one_waiting "''job-a''"]
      cancel_only_active [of one_waiting "''job-x''"]
    by simp
qed

text \<open>
  The claim fails for a queued job: with job x in the only slot and job a waiting,
  cancelling a leaves a in the queue and sends nothing; when x is cancelled afterwards
  and the slot is free, the request for a is sent.
\<close>

theorem cancel_queued_counterexample:
  "map item_id (downloadQueue (cancelDownload one_waiting ''job-a'')) = [''job-a'']
   \<and> requests (cancelDownload one_waiting ''job-a'') = [Post_download ''job-x'']
   \<and> requests (cancelDownload (cancelDownload one_waiting ''job-a'') ''job-x'')
       = [Post_download ''job-x'', Post_cancel ''job-x'', Post_download ''job-a'']"
  by code_simp

subsection \<open>Retries\<close>

text \<open>
  C10, as the code has it. Let a download be active (and not queued as well), with n
  retries recorded for it. If n is below 3 and the error message, in lower case,
  contains one of the five retryable substrings, a retry is scheduled: it is retry
  n + 1, at most the third, its timer has the delay 5000 * 2^n milliseconds, the
  download stays active, and when the timer fires the download request is sent again.
  Otherwise the download is removed from the active downloads and from the retry
  counts and the error message is shown.
\<close>

theorem retry_policy:
  assumes active: "map_of (downloads m) i = Some d"
    and limits: "maxRetries m = 3" "retryDelay m = 5000"
    and queued: "i \<notin> set (map item_id (downloadQueue m))"
    and n: "n = (case retryAttempts m i of None \<Rightarrow> 0 | Some k \<Rightarrow> k)"
  shows "(let m' = handleDownloadError m i e;
              retry = (n < 3 \<and> (includes_str (toLowerCase e) ''network error''
                               \<or> includes_str (toLowerCase e) ''timeout''
                               \<or> includes_str (toLowerCase e) ''connection reset''
                               \<or> includes_str (toLowerCase e) ''temporary failure''
                               \<or> includes_str (toLowerCase e) ''rate limited''))
          in if retry
             then timers m' = timers m @ [(5000 * 2 ^ n, Retry_timer i (n + 1))]
                  \<and> retryAttempts m' i = Some (n + 1) \<and> n + 1 \<le> 3
                  \<and> map_of (downloads m') i \<noteq> None
                  \<and> requests m' = requests m
                  \<and> requests (on_retry_timer m' i (n + 1))
                      = requests m @ [Post_download (dl_id d)]
             else map_of (downloads m') i = None
                  \<and> retryAttempts m' i = None
                  \<and> messages m' = messages m @ [Error_message i e]
                  \<and> (timers m' = timers m
                      \<or> timers m' = timers m @ [(1000, ProcessQueue_timer)]))"
proof -
  define m1 where
    "m1 = m\<lparr>downloads := AList.update i (d\<lparr>dl_status := ''error'', dl_error := Some e\<rparr>)
                         (downloads m)\<rparr>"
  define retry where "retry = (n < 3 \<and> isRetryableError e)"
  have retry_eq: "retry = (n < 3 \<and> (includes_str (toLowerCase e) ''network error''
                               \<or> includes_str (toLowerCase e) ''timeout''
                               \<or> includes_str (toLowerCase e) ''connection reset''
                               \<or> includes_str (toLowerCase e) ''temporary failure''
                               \<or> includes_str (toLowerCase e) ''rate limited''))"
    by (simp add: retry_def isRetryableError_def retryableErrors_def)
  have m1_act: "map_of (downloads m1) i = Some (d\<lparr>dl_status := ''error'', dl_error := Some e\<rparr>)"
    by (simp add: m1_def update_conv')
  show ?thesis
  proof (cases retry)
    case True
    then have h: "handleDownloadError m i e = scheduleRetry m1 i (n + 1)"
      using active limits n by (simp add: handleDownloadError_def Let_def m1_def retry_def)
    have s: "scheduleRetry m1 i (n + 1)
             = m1\<lparr>retryAttempts := (retryAttempts m1)(i \<mapsto> n + 1),
                  messages := messages m1 @ [Retry_message i (n + 1)],
                  timers := timers m1 @ [(retryDelay m1 * 2 ^ n, Retry_timer i (n + 1))]\<rparr>"
      using m1_act by (simp add: scheduleRetry_def)
    from True have "n + 1 \<le> 3" by (simp add: retry_def)
    with True show ?thesis
      unfolding Let_def retry_eq [symmetric] h s
      using limits m1_act
      by (simp add: m1_def on_retry_timer_def dm_startDownload_def update_conv')
  next
    case False
    define m2 where "m2 = m1\<lparr>messages := messages m1 @ [Error_message i e],
                         downloads := AList.delete i (downloads m1),
                         retryAttempts := (retryAttempts m1)(i := None)\<rparr>"
    from False have h: "handleDownloadError m i e = processQueue m2"
      using active limits n
      by (auto simp: handleDownloadError_def Let_def m1_def m2_def retry_def)
    have "map_of (downloads m2) i = None" by (simp add: m2_def delete_conv')
    moreover have "i \<notin> set (map item_id (downloadQueue m2))"
      using queued by (simp add: m2_def m1_def)
    ultimately have a: "map_of (downloads (processQueue m2)) i = None"
      by (rule processQueue_absent)
    have b: "retryAttempts (processQueue m2) i = None"
      by (simp add: processQueue_keeps m2_def)
    have c: "messages (processQueue m2) = messages m @ [Error_message i e]"
      by (simp add: processQueue_keeps m2_def m1_def)
    have d: "timers (processQueue m2) = timers m
             \<or> timers (processQueue m2) = timers m @ [(1000, ProcessQueue_timer)]"
      using processQueue_keeps(4) [of m2] by (simp add: m2_def m1_def)
    from False a b c d show ?thesis
      unfolding Let_def retry_eq [symmetric] h by simp
  qed
qed

theorem retry_policy_witness:
  "timers (handleDownloadError slot_taken ''job-x'' ''Network error: timeout'')
     = [(5000, Retry_timer ''job-x'' 1)]
   \<and> messages (handleDownloadError slot_taken ''job-x'' ''Download failed to start'')
     = [Error_message ''job-x'' ''Download failed to start'']"
proof -
  have h: "map_of (downloads slot_taken) ''job-x''
           = Some \<lparr>dl_id = ''job-x'', dl_url = ''https://youtu.be/x'', dl_quality = ''720p'',
                   dl_status = ''downloading'', dl_progress = 0, dl_retryCount = 0,
                   dl_error = None\<rparr>"
    "maxRetries slot_taken = 3" "retryDelay slot_taken = 5000"
    "''job-x'' \<notin> set (map item_id (downloadQueue slot_taken))"
    "(0::nat) = (case retryAttempts slot_taken ''job-x'' of None \<Rightarrow> 0 | Some k \<Rightarrow> k)"
    "timers slot_taken = []" "messages slot_taken = []"
    by code_simp+
  have e: "includes_str (toLowerCase ''Network error: timeout'') ''network error''"
    "\<not> includes_str (toLowerCase ''Download failed to start'') ''network error''"
    "\<not> includes_str (toLowerCase ''Download failed to start'') ''timeout''"
    "\<not> includes_str (toLowerCase ''Download failed to start'') ''connection reset''"
    "\<not> includes_str (toLowerCase ''Download failed to start'') ''temporary failure''"
    "\<not> includes_str (toLowerCase ''Download failed to start'') ''rate limited''"
    by code_simp+
  show ?thesis
    using retry_policy [OF h(1-5), of "''Network error: timeout''"]
      retry_policy [OF h(1-5), of "''Download failed to start''"] e h(6,7)
    by (simp add: Let_def)
qed

text \<open>
  The claim that only a message containing one of the five substrings is retried fails:
  the message \<open>TIMEOUT\<close> contains none of them, and the download is retried after
  5000 milliseconds and stays active.
\<close>

theorem retry_case_counterexample:
  "\<not> list_ex (includes_str ''TIMEOUT'') retryableErrors
   \<and> timers (handleDownloadError slot_taken ''job-x'' ''TIMEOUT'')
       = [(5000, Retry_timer ''job-x'' 1)]
   \<and> map fst (downloads (handleDownloadError slot_taken ''job-x'' ''TIMEOUT'')) = [''job-x'']"
  by code_simp

end
